theory Spec2Isabelle
  imports Main "HOL-Library.Sublist"
begin

section \<open>Strings, paths and number formatting\<close>

text \<open>
  Python strings are modelled as \<open>string\<close>, the UTF-8 bytes of the text. The literals of
  the program that are not ASCII (the emoji of the log lines, the accented letters of the
  method labels) are written as their UTF-8 bytes. The path functions are those of
  \<open>posixpath\<close> (separator \<open>/\<close>).
\<close>

type_synonym path = string

text \<open>\<open>str.lower\<close>, on the ASCII letters; every other byte is left as it is.\<close>

definition lower_char :: "char \<Rightarrow> char" where
  "lower_char c =
     (let n = (of_char c :: nat) in if 65 \<le> n \<and> n \<le> 90 then char_of (n + 32) else c)"

definition lower :: "string \<Rightarrow> string" where
  "lower s = map lower_char s"

text \<open>\<open>os.path.join(a, *p)\<close>: a component that starts with the separator replaces what
  was joined so far; otherwise it is appended, with a separator unless the path so far is
  empty or already ends with one.\<close>

definition startswith_sep :: "string \<Rightarrow> bool" where
  "startswith_sep b = (case b of [] \<Rightarrow> False | c # _ \<Rightarrow> c = CHR ''/'')"

definition endswith_sep :: "string \<Rightarrow> bool" where
  "endswith_sep p = (p \<noteq> [] \<and> last p = CHR ''/'')"

definition join_step :: "path \<Rightarrow> string \<Rightarrow> path" where
  "join_step p b =
     (if startswith_sep b then b
      else if p = [] \<or> endswith_sep p then p @ b
      else p @ ''/'' @ b)"

definition join :: "path \<Rightarrow> string list \<Rightarrow> path" where
  "join a ps = foldl join_step a ps"

text \<open>\<open>os.path.basename(p)\<close>: what follows the last separator.\<close>

definition basename :: "path \<Rightarrow> string" where
  "basename p = rev (takeWhile (\<lambda>c. c \<noteq> CHR ''/'') (rev p))"

text \<open>\<open>os.path.dirname(p)\<close>: the part up to the last separator, with its trailing
  separators stripped unless it consists of separators only.\<close>

definition dirname :: "path \<Rightarrow> path" where
  "dirname p =
     (let head = rev (dropWhile (\<lambda>c. c \<noteq> CHR ''/'') (rev p))
      in if head \<noteq> [] \<and> (\<exists>c \<in> set head. c \<noteq> CHR ''/'')
         then rev (dropWhile (\<lambda>c. c = CHR ''/'') (rev head))
         else head)"

text \<open>\<open>os.path.splitext(p)\<close>: the extension starts at the last dot of the last path
  component, provided a character other than a dot precedes it in that component.\<close>

definition splitext :: "path \<Rightarrow> path \<times> string" where
  "splitext p =
     (let b = basename p;
          e = rev (takeWhile (\<lambda>c. c \<noteq> CHR ''.'') (rev b));
          stem = take (length b - Suc (length e)) b
      in if CHR ''.'' \<in> set b \<and> (\<exists>c \<in> set stem. c \<noteq> CHR ''.'')
         then (take (length p - Suc (length e)) p, CHR ''.'' # e)
         else (p, []))"

text \<open>\<open>str(n)\<close> and the format \<open>{n:02d}\<close> for a non-negative integer.\<close>

definition digit_char :: "nat \<Rightarrow> char" where
  "digit_char n = ''0123456789'' ! (n mod 10)"

fun str_nat :: "nat \<Rightarrow> string" where
  "str_nat n = (if n < 10 then [digit_char n] else str_nat (n div 10) @ [digit_char (n mod 10)])"

declare str_nat.simps [simp del]

definition fmt_02d :: "nat \<Rightarrow> string" where
  "fmt_02d n = (let s = str_nat n in replicate (2 - length s) CHR ''0'' @ s)"


section \<open>Values of the program\<close>

text \<open>A \<open>datetime\<close>. Its fields are never negative (the year is at least 1).\<close>

record datetime =
  year :: nat
  month :: nat
  day :: nat
  hour :: nat
  minute :: nat
  second :: nat
  microsecond :: nat

text \<open>An exception (any subclass of \<open>Exception\<close>), with the text \<open>str(e)\<close> gives.\<close>

datatype exn = Exception string

fun str_exn :: "exn \<Rightarrow> string" where
  "str_exn (Exception m) = m"

text \<open>The value of an EXIF entry: a string, or something that is not a string.\<close>

datatype exif_value = Str string | NotStr

type_synonym exif_dict = "(int \<times> exif_value) list"

text \<open>An opened image, given by what its \<open>_getexif()\<close> does: it raises, or returns
  \<open>None\<close>, or returns the dictionary of the entries (in the order of iteration).\<close>

datatype image = Image "exn + exif_dict option"

fun getexif :: "image \<Rightarrow> exn + exif_dict option" where
  "getexif (Image r) = r"


section \<open>The operating system and the libraries\<close>

text \<open>
  What the program calls and does not define: the file system (over a world \<open>'w\<close>),
  Pillow, and \<open>datetime\<close>. A call that can raise returns the exception; a call that
  changes the file system returns the new world, also when it raises. \<open>os_walk\<close> gives
  the triples that the generator of \<open>os.walk\<close> yields (nothing for a directory that
  cannot be listed: it has no \<open>onerror\<close>); \<open>os.path.isfile\<close> does not raise.
  \<open>'t\<close> is the type of the timestamps of \<open>os.path.getmtime\<close>.
\<close>

record ('w, 't) sys =
  os_walk :: "'w \<Rightarrow> path \<Rightarrow> (path \<times> string list \<times> string list) list"
  isfile :: "'w \<Rightarrow> path \<Rightarrow> bool"
  makedirs :: "'w \<Rightarrow> path \<Rightarrow> 'w \<times> exn option"
  copy2 :: "'w \<Rightarrow> path \<Rightarrow> path \<Rightarrow> 'w \<times> exn option"
  move :: "'w \<Rightarrow> path \<Rightarrow> path \<Rightarrow> 'w \<times> exn option"
  Image_open :: "'w \<Rightarrow> path \<Rightarrow> exn + image"
  TAGS :: "int \<rightharpoonup> string"
  strptime :: "exif_value \<Rightarrow> string \<Rightarrow> exn + datetime"
  getmtime :: "'w \<Rightarrow> path \<Rightarrow> exn + 't"
  fromtimestamp :: "'t \<Rightarrow> exn + datetime"


section \<open>OrganizerThread\<close>

text \<open>The fields of the thread object; the field \<open>method\<close> is written \<open>method'\<close>. The
  two folders are strings, empty until the user has chosen a folder.\<close>

record OrganizerThread =
  source_folder :: string
  dest_folder :: string
  method' :: string
  copy_files :: bool
  stop_flag :: bool

definition init :: "string \<Rightarrow> string \<Rightarrow> string \<Rightarrow> bool \<Rightarrow> OrganizerThread" where
  "init source dest meth copy =
     \<lparr>source_folder = source, dest_folder = dest, method' = meth, copy_files = copy,
      stop_flag = False\<rparr>"

text \<open>The flag is read and written under the mutex: each of the two is one atomic step.\<close>

definition check_stop_flag :: "OrganizerThread \<Rightarrow> bool" where
  "check_stop_flag slf = stop_flag slf"

definition stop :: "OrganizerThread \<Rightarrow> OrganizerThread" where
  "stop slf = slf\<lparr>stop_flag := True\<rparr>"

definition image_exts :: "string set" where
  "image_exts = {''.jpg'', ''.jpeg'', ''.png'', ''.gif'', ''.bmp'', ''.tiff'', ''.webp'', ''.heic''}"

definition video_exts :: "string set" where
  "video_exts = {''.mp4'', ''.mov'', ''.avi'', ''.mkv'', ''.flv''}"

definition is_image :: "path \<Rightarrow> bool" where
  "is_image file_path \<longleftrightarrow> lower (snd (splitext file_path)) \<in> image_exts"

definition is_video :: "path \<Rightarrow> bool" where
  "is_video file_path \<longleftrightarrow> lower (snd (splitext file_path)) \<in> video_exts"

subsection \<open>get_photo_date\<close>

definition fmt_exif :: string where
  "fmt_exif = ''%Y:%m:%d %H:%M:%S''"

text \<open>\<open>TAGS.get(tag, tag)\<close>: the name of the tag, or the tag itself when it has none.\<close>

definition TAGS_get :: "('w, 't) sys \<Rightarrow> int \<Rightarrow> string + int" where
  "TAGS_get sys tag = (case TAGS sys tag of Some name \<Rightarrow> Inl name | None \<Rightarrow> Inr tag)"

text \<open>The loop over the entries: \<open>None\<close> when it ends without returning, else what
  \<open>strptime\<close> did at the first entry named DateTimeOriginal.\<close>

fun scan_exif :: "('w, 't) sys \<Rightarrow> exif_dict \<Rightarrow> (exn + datetime) option" where
  "scan_exif sys [] = None"
| "scan_exif sys ((tag, v) # rest) =
     (if TAGS_get sys tag = Inl ''DateTimeOriginal'' then Some (strptime sys v fmt_exif)
      else scan_exif sys rest)"

text \<open>The body of the \<open>try\<close>: an exception, or the value returned inside it, or
  \<open>None\<close> when control leaves the block without a return.\<close>

definition try_exif :: "('w, 't) sys \<Rightarrow> 'w \<Rightarrow> path \<Rightarrow> exn + datetime option" where
  "try_exif sys w photo_path =
     (case Image_open sys w photo_path of
        Inl e \<Rightarrow> Inl e
      | Inr img \<Rightarrow>
          (case getexif img of
             Inl e \<Rightarrow> Inl e
           | Inr None \<Rightarrow> Inr None
           | Inr (Some exif_data) \<Rightarrow>
               if exif_data = [] then Inr None
               else (case scan_exif sys exif_data of
                       None \<Rightarrow> Inr None
                     | Some (Inl e) \<Rightarrow> Inl e
                     | Some (Inr d) \<Rightarrow> Inr (Some d))))"

text \<open>\<open>datetime.fromtimestamp(os.path.getmtime(photo_path))\<close>\<close>

definition mtime_date :: "('w, 't) sys \<Rightarrow> 'w \<Rightarrow> path \<Rightarrow> exn + datetime" where
  "mtime_date sys w photo_path =
     (case getmtime sys w photo_path of Inl e \<Rightarrow> Inl e | Inr t \<Rightarrow> fromtimestamp sys t)"

text \<open>An exception of the \<open>try\<close> block is swallowed (\<open>except Exception: pass\<close>); the
  last line is outside the block, so what it raises leaves the function.\<close>

definition get_photo_date :: "('w, 't) sys \<Rightarrow> 'w \<Rightarrow> path \<Rightarrow> exn + datetime" where
  "get_photo_date sys w photo_path =
     (case try_exif sys w photo_path of
        Inr (Some d) \<Rightarrow> Inr d
      | Inr None \<Rightarrow> mtime_date sys w photo_path
      | Inl e \<Rightarrow> mtime_date sys w photo_path)"

subsection \<open>generate_dest_path\<close>

definition method_ym :: string where
  "method_ym = [CHR ''A'', CHR 0xC3, CHR 0xB1, CHR ''o''] @ ''/Mes''"

definition method_ymd :: string where
  "method_ymd = [CHR ''A'', CHR 0xC3, CHR 0xB1, CHR ''o''] @ ''/Mes/D'' @ [CHR 0xC3, CHR 0xAD, CHR ''a'']"

definition generate_dest_path :: "OrganizerThread \<Rightarrow> datetime \<Rightarrow> string \<Rightarrow> path" where
  "generate_dest_path slf photo_date filename =
     (if method' slf = method_ym then
        join (dest_folder slf) [str_nat (year photo_date), fmt_02d (month photo_date), filename]
      else if method' slf = method_ymd then
        join (dest_folder slf)
          [str_nat (year photo_date), fmt_02d (month photo_date), fmt_02d (day photo_date),
           filename]
      else join (dest_folder slf) [''Evento_Personalizado'', filename])"

section \<open>run\<close>

text \<open>
  What a run does, in order: the two signals it emits, and its calls into the file system
  with what each call answered (\<open>None\<close>: the call returned; \<open>Some e\<close>: it raised \<open>e\<close>).
\<close>

datatype event =
    Log string
  | Preview path
  | Isfile path bool
  | Makedirs path "exn option"
  | Copy2 path path "exn option"
  | Move path path "exn option"

definition msg_missing :: string where
  "msg_missing = [CHR 0xE2, CHR 0x9A, CHR 0xA0, CHR 0xEF, CHR 0xB8, CHR 0x8F]
     @ '' Debes seleccionar una carpeta de origen y destino.''"

definition msg_stopped :: string where
  "msg_stopped = [CHR 0xE2, CHR 0x8F, CHR 0xB9, CHR 0xEF, CHR 0xB8, CHR 0x8F]
     @ '' Organizaci'' @ [CHR 0xC3, CHR 0xB3] @ ''n detenida.''"

definition msg_copied :: "string \<Rightarrow> path \<Rightarrow> string" where
  "msg_copied filename dest_path =
     [CHR 0xE2, CHR 0x9C, CHR 0x85] @ '' Copiada: '' @ filename @ '' -> '' @ dest_path"

definition msg_moved :: "string \<Rightarrow> path \<Rightarrow> string" where
  "msg_moved filename dest_path =
     [CHR 0xE2, CHR 0x9C, CHR 0x85] @ '' Movida: '' @ filename @ '' -> '' @ dest_path"

definition msg_error :: "string \<Rightarrow> exn \<Rightarrow> string" where
  "msg_error filename e =
     [CHR 0xE2, CHR 0x9D, CHR 0x8C] @ '' Error moviendo '' @ filename @ '': '' @ str_exn e"

definition msg_completed :: string where
  "msg_completed = [CHR 0xF0, CHR 0x9F, CHR 0x8E, CHR 0x89]
     @ '' Organizaci'' @ [CHR 0xC3, CHR 0xB3] @ ''n completada.''"

text \<open>
  The state of a run: the thread object (its flag is shared with the controller), the file
  system, the number of checks of the flag so far, and the events so far.
\<close>

record 'w state =
  self :: OrganizerThread
  world :: 'w
  checks :: nat
  trace :: "event list"

definition emit :: "event \<Rightarrow> 'w state \<Rightarrow> 'w state" where
  "emit e s = s\<lparr>trace := trace s @ [e]\<rparr>"

text \<open>How one iteration of the loop over the files ends: it goes on with the next file,
  or \<open>run\<close> returns, or an exception leaves \<open>run\<close>.\<close>

datatype flow = Next | Return | Raise exn

text \<open>
  One iteration of the inner loop. The controller thread may call \<open>stop()\<close> at any time;
  the run sees the flag only when it checks it, so the controller is given as \<open>ctl\<close>:
  \<open>ctl k\<close> holds when \<open>stop()\<close> is called after check \<open>k - 1\<close> and before check \<open>k\<close>.
  \<open>os.makedirs\<close> is called before the \<open>try\<close>; the copy or move and its log line are
  inside it.
\<close>

definition run_file ::
  "('w, 't) sys \<Rightarrow> (nat \<Rightarrow> bool) \<Rightarrow> path \<Rightarrow> string \<Rightarrow> 'w state \<Rightarrow> flow \<times> 'w state" where
  "run_file sys ctl root filename s0 =
     (let file_path = join root [filename];
          s1 = s0\<lparr>self := (if ctl (checks s0) then stop (self s0) else self s0),
                  checks := Suc (checks s0)\<rparr>
      in if check_stop_flag (self s1) then (Return, emit (Log msg_stopped) s1)
         else
           let regular = isfile sys (world s1) file_path;
               s2 = emit (Isfile file_path regular) s1
           in if \<not> regular then (Next, s2)
              else if \<not> is_image file_path \<and> \<not> is_video file_path then (Next, s2)
              else
                let s3 = emit (Preview file_path) s2
                in (case get_photo_date sys (world s3) file_path of
                      Inl e \<Rightarrow> (Raise e, s3)
                    | Inr photo_date \<Rightarrow>
                        let dest_path = generate_dest_path (self s3) photo_date filename;
                            (w4, r4) = makedirs sys (world s3) (dirname dest_path);
                            s4 = emit (Makedirs (dirname dest_path) r4) (s3\<lparr>world := w4\<rparr>)
                        in (case r4 of
                              Some e \<Rightarrow> (Raise e, s4)
                            | None \<Rightarrow>
                                if copy_files (self s4) then
                                  (let (w5, r5) = copy2 sys (world s4) file_path dest_path;
                                       s5 = emit (Copy2 file_path dest_path r5) (s4\<lparr>world := w5\<rparr>)
                                   in (Next,
                                       emit (Log (case r5 of
                                                    None \<Rightarrow> msg_copied filename dest_path
                                                  | Some e \<Rightarrow> msg_error filename e)) s5))
                                else
                                  (let (w5, r5) = move sys (world s4) file_path dest_path;
                                       s5 = emit (Move file_path dest_path r5) (s4\<lparr>world := w5\<rparr>)
                                   in (Next,
                                       emit (Log (case r5 of
                                                    None \<Rightarrow> msg_moved filename dest_path
                                                  | Some e \<Rightarrow> msg_error filename e)) s5)))))"

text \<open>The inner loop, over the files of one directory.\<close>

fun run_files ::
  "('w, 't) sys \<Rightarrow> (nat \<Rightarrow> bool) \<Rightarrow> path \<Rightarrow> string list \<Rightarrow> 'w state \<Rightarrow> flow \<times> 'w state" where
  "run_files sys ctl root [] s = (Next, s)"
| "run_files sys ctl root (filename # rest) s =
     (case run_file sys ctl root filename s of
        (Next, s') \<Rightarrow> run_files sys ctl root rest s'
      | (Return, s') \<Rightarrow> (Return, s')
      | (Raise e, s') \<Rightarrow> (Raise e, s'))"

text \<open>The outer loop, over the triples of \<open>os.walk\<close>.\<close>

fun run_walk ::
  "('w, 't) sys \<Rightarrow> (nat \<Rightarrow> bool) \<Rightarrow> (path \<times> string list \<times> string list) list \<Rightarrow> 'w state
     \<Rightarrow> flow \<times> 'w state" where
  "run_walk sys ctl [] s = (Next, s)"
| "run_walk sys ctl ((root, dirs, files) # rest) s =
     (case run_files sys ctl root files s of
        (Next, s') \<Rightarrow> run_walk sys ctl rest s'
      | (Return, s') \<Rightarrow> (Return, s')
      | (Raise e, s') \<Rightarrow> (Raise e, s'))"

text \<open>\<open>run\<close>: the exception that left it, if any, and the final state.\<close>

definition run ::
  "('w, 't) sys \<Rightarrow> (nat \<Rightarrow> bool) \<Rightarrow> OrganizerThread \<Rightarrow> 'w \<Rightarrow> exn option \<times> 'w state" where
  "run sys ctl slf w =
     (let s0 = \<lparr>self = slf, world = w, checks = 0, trace = []\<rparr>
      in if source_folder slf = [] \<or> dest_folder slf = [] then
           (None, emit (Log msg_missing) s0)
         else
           (case run_walk sys ctl (os_walk sys w (source_folder slf)) s0 of
              (Next, s) \<Rightarrow> (None, emit (Log msg_completed) s)
            | (Return, s) \<Rightarrow> (None, s)
            | (Raise e, s) \<Rightarrow> (Some e, s)))"


section \<open>Notions used to state the properties\<close>

text \<open>The two digits of a number below 100.\<close>

definition two_digits :: "nat \<Rightarrow> string" where
  "two_digits n = [digit_char (n div 10), digit_char (n mod 10)]"

text \<open>A directory path, ready for a component to be appended: it gets a separator unless
  it is empty or ends with one.\<close>

definition with_sep :: "path \<Rightarrow> path" where
  "with_sep p = (if p = [] \<or> endswith_sep p then p else p @ ''/'')"

text \<open>The directories between the destination root and the file name, and the part of
  the capture date that selects them (the bucket of the date).\<close>

definition bucket_dirs :: "OrganizerThread \<Rightarrow> datetime \<Rightarrow> string" where
  "bucket_dirs slf d =
     (if method' slf = method_ym then str_nat (year d) @ ''/'' @ fmt_02d (month d)
      else if method' slf = method_ymd then
        str_nat (year d) @ ''/'' @ fmt_02d (month d) @ ''/'' @ fmt_02d (day d)
      else ''Evento_Personalizado'')"

definition bucket :: "OrganizerThread \<Rightarrow> datetime \<Rightarrow> nat list" where
  "bucket slf d =
     (if method' slf = method_ym then [year d, month d]
      else if method' slf = method_ymd then [year d, month d, day d]
      else [])"




text \<open>The traversal yields at least one file name.\<close>

definition has_files :: "(path \<times> string list \<times> string list) list \<Rightarrow> bool" where
  "has_files walk = list_ex (\<lambda>(root, dirs, files). files \<noteq> []) walk"

text \<open>The extension of a path, in lower case, is one of the thirteen of the two sets.\<close>

definition has_media_ext :: "path \<Rightarrow> bool" where
  "has_media_ext p \<longleftrightarrow>
     lower (snd (splitext p)) \<in>
       {''.jpg'', ''.jpeg'', ''.png'', ''.gif'', ''.bmp'', ''.tiff'', ''.webp'', ''.heic'',
        ''.mp4'', ''.mov'', ''.avi'', ''.mkv'', ''.flv''}"

text \<open>Readings of a trace: the sources of the calls of \<open>copy2\<close> and \<open>move\<close> (the
  relocation attempts), the paths that \<open>isfile\<close> found to be regular files, the paths of
  the preview signals, the log lines. A stretch of the trace is accounted for when its
  relocation attempts are the visited regular files with one of the extensions, in order,
  each with its preview and its log line, and nothing else is logged or previewed.\<close>

definition relocation_sources :: "event list \<Rightarrow> path list" where
  "relocation_sources evs =
     concat (map (\<lambda>e. case e of Copy2 src dst r \<Rightarrow> [src] | Move src dst r \<Rightarrow> [src] | _ \<Rightarrow> []) evs)"

definition regular_visits :: "event list \<Rightarrow> path list" where
  "regular_visits evs =
     concat (map (\<lambda>e. case e of Isfile p b \<Rightarrow> (if b then [p] else []) | _ \<Rightarrow> []) evs)"

definition previews :: "event list \<Rightarrow> path list" where
  "previews evs = concat (map (\<lambda>e. case e of Preview p \<Rightarrow> [p] | _ \<Rightarrow> []) evs)"

definition logs :: "event list \<Rightarrow> string list" where
  "logs evs = concat (map (\<lambda>e. case e of Log m \<Rightarrow> [m] | _ \<Rightarrow> []) evs)"

definition accounted :: "event list \<Rightarrow> bool" where
  "accounted evs \<longleftrightarrow>
     relocation_sources evs = filter has_media_ext (regular_visits evs)
     \<and> previews evs = relocation_sources evs
     \<and> length (logs evs) = length (relocation_sources evs)"



section \<open>A small file system\<close>

text \<open>
  An instance of the operating system, to run the model on examples and to state what a
  run leaves on disk. The world maps the path of each regular file to the file;
  directories are implicit (a directory exists when something was created in it).
  Permissions, links and free space are not part of it.
\<close>

record regular_file =
  content :: string
  mtime :: datetime
  picture :: "exn + image"

type_synonym fs = "path \<rightharpoonup> regular_file"

text \<open>\<open>os.makedirs(d, exist_ok=True)\<close> raises when \<open>d\<close> is a regular file.\<close>

definition fs_makedirs :: "fs \<Rightarrow> path \<Rightarrow> fs \<times> exn option" where
  "fs_makedirs w d =
     (if w d \<noteq> None then (w, Some (Exception (''[Errno 17] File exists: '' @ d)))
      else (w, None))"

text \<open>\<open>shutil.copy2(src, dst)\<close> writes the content and the metadata of \<open>src\<close> to
  \<open>dst\<close>, over what was there.\<close>

definition fs_copy2 :: "fs \<Rightarrow> path \<Rightarrow> path \<Rightarrow> fs \<times> exn option" where
  "fs_copy2 w src dst =
     (case w src of
        None \<Rightarrow> (w, Some (Exception (''[Errno 2] No such file or directory: '' @ src)))
      | Some f \<Rightarrow>
          if src = dst then (w, Some (Exception (src @ '' and '' @ dst @ '' are the same file'')))
          else (w(dst \<mapsto> f), None))"

definition fs_move :: "fs \<Rightarrow> path \<Rightarrow> path \<Rightarrow> fs \<times> exn option" where
  "fs_move w src dst =
     (case w src of
        None \<Rightarrow> (w, Some (Exception (''[Errno 2] No such file or directory: '' @ src)))
      | Some f \<Rightarrow> ((w(src := None))(dst \<mapsto> f), None))"

definition fs_Image_open :: "fs \<Rightarrow> path \<Rightarrow> exn + image" where
  "fs_Image_open w p =
     (case w p of
        None \<Rightarrow> Inl (Exception (''[Errno 2] No such file or directory: '' @ p))
      | Some f \<Rightarrow> picture f)"

definition fs_getmtime :: "fs \<Rightarrow> path \<Rightarrow> exn + datetime" where
  "fs_getmtime w p =
     (case w p of
        None \<Rightarrow> Inl (Exception (''[Errno 2] No such file or directory: '' @ p))
      | Some f \<Rightarrow> Inr (mtime f))"

text \<open>A parser for the one format of the program, on the strings that have exactly its
  shape, \<open>YYYY:MM:DD HH:MM:SS\<close>.\<close>

definition number :: "string \<Rightarrow> nat option" where
  "number s =
     (if s \<noteq> [] \<and> (\<forall>c \<in> set s. 48 \<le> (of_char c :: nat) \<and> (of_char c :: nat) \<le> 57)
      then Some (foldl (\<lambda>a c. 10 * a + (of_char c - 48)) 0 s)
      else None)"

definition parse_exif_time :: "exif_value \<Rightarrow> string \<Rightarrow> exn + datetime" where
  "parse_exif_time v fmt =
     (case v of
        NotStr \<Rightarrow> Inl (Exception ''strptime() argument 1 must be str'')
      | Str s \<Rightarrow>
          (case (number (take 4 s), number (take 2 (drop 5 s)), number (take 2 (drop 8 s)),
                 number (take 2 (drop 11 s)), number (take 2 (drop 14 s)),
                 number (take 2 (drop 17 s))) of
             (Some y, Some m, Some d, Some H, Some M, Some S) \<Rightarrow>
               if fmt = fmt_exif \<and> length s = 19
                  \<and> map (\<lambda>i. s ! i) [4, 7, 10, 13, 16] = '':: ::''
                  \<and> 1 \<le> y \<and> 1 \<le> m \<and> m \<le> 12 \<and> 1 \<le> d \<and> d \<le> 31 \<and> H < 24 \<and> M < 60 \<and> S < 60
               then Inr \<lparr>year = y, month = m, day = d, hour = H, minute = M, second = S,
                         microsecond = 0\<rparr>
               else Inl (Exception ''time data does not match format'')
           | _ \<Rightarrow> Inl (Exception ''time data does not match format'')))"

text \<open>The system over this file system. \<open>listing\<close> is what \<open>os.walk\<close> yields for the
  source directory.\<close>

definition fs_sys :: "(path \<times> string list \<times> string list) list \<Rightarrow> (fs, datetime) sys" where
  "fs_sys listing =
     \<lparr>os_walk = (\<lambda>w top. listing),
      isfile = (\<lambda>w p. w p \<noteq> None),
      makedirs = fs_makedirs,
      copy2 = fs_copy2,
      move = fs_move,
      Image_open = fs_Image_open,
      TAGS = [306 \<mapsto> ''DateTime'', 36867 \<mapsto> ''DateTimeOriginal'', 36868 \<mapsto> ''DateTimeDigitized''],
      strptime = parse_exif_time,
      getmtime = fs_getmtime,
      fromtimestamp = Inr\<rparr>"






subsection \<open>Example files and requests\<close>

definition date_2021_05_03 :: datetime where
  "date_2021_05_03 =
     \<lparr>year = 2021, month = 5, day = 3, hour = 10, minute = 0, second = 0, microsecond = 0\<rparr>"

definition date_2021_05_20 :: datetime where
  "date_2021_05_20 =
     \<lparr>year = 2021, month = 5, day = 20, hour = 18, minute = 45, second = 10, microsecond = 0\<rparr>"

definition date_2020_01_15 :: datetime where
  "date_2020_01_15 =
     \<lparr>year = 2020, month = 1, day = 15, hour = 8, minute = 30, second = 0, microsecond = 0\<rparr>"

text \<open>A JPEG with the capture time 2021:05:03 10:00:00, last modified on 2020-01-15; a
  video, which Pillow cannot open; a text file.\<close>

definition photo :: regular_file where
  "photo =
     \<lparr>content = ''jpeg-bytes'', mtime = date_2020_01_15,
      picture = Inr (Image (Inr (Some [(271, Str ''Camera''),
                                       (36867, Str ''2021:05:03 10:00:00'')])))\<rparr>"

definition video :: regular_file where
  "video =
     \<lparr>content = ''mp4-bytes'', mtime = date_2020_01_15,
      picture = Inl (Exception ''cannot identify image file'')\<rparr>"

definition textfile :: regular_file where
  "textfile =
     \<lparr>content = ''hello'', mtime = date_2020_01_15,
      picture = Inl (Exception ''cannot identify image file'')\<rparr>"

definition never_stop :: "nat \<Rightarrow> bool" where
  "never_stop k = False"

definition example_listing :: "(path \<times> string list \<times> string list) list" where
  "example_listing = [(''/in'', [], [''a.jpg'', ''b.txt''])]"

definition example_fs :: fs where
  "example_fs = [''/in/a.jpg'' \<mapsto> photo, ''/in/b.txt'' \<mapsto> textfile]"

definition example_request :: OrganizerThread where
  "example_request = init ''/in'' ''/out'' method_ym True"

text \<open>The state the example run ends in.\<close>

definition example_final :: "fs state" where
  "example_final =
     \<lparr>self = example_request,
      world = example_fs(''/out/2021/05/a.jpg'' \<mapsto> photo),
      checks = 2,
      trace = [Isfile ''/in/a.jpg'' True, Preview ''/in/a.jpg'',
               Makedirs ''/out/2021/05'' None,
               Copy2 ''/in/a.jpg'' ''/out/2021/05/a.jpg'' None,
               Log (msg_copied ''a.jpg'' ''/out/2021/05/a.jpg''),
               Isfile ''/in/b.txt'' True,
               Log msg_completed]\<rparr>"

text \<open>A source tree with a subdirectory and no file.\<close>

definition empty_listing :: "(path \<times> string list \<times> string list) list" where
  "empty_listing = [(''/in'', [''sub''], []), (''/in/sub'', [], [])]"

definition empty_fs :: fs where
  "empty_fs = Map.empty"

definition no_source_request :: OrganizerThread where
  "no_source_request = init [] ''/out'' method_ym True"

definition stopped_request :: OrganizerThread where
  "stopped_request = stop example_request"

text \<open>Two photos to put under \<open>/out/Evento_Personalizado\<close>, where a regular file of
  that name is in the way of the directory.\<close>

definition two_photos_listing :: "(path \<times> string list \<times> string list) list" where
  "two_photos_listing = [(''/in'', [], [''a.jpg'', ''b.jpg''])]"

definition blocked_fs :: fs where
  "blocked_fs =
     [''/in/a.jpg'' \<mapsto> photo, ''/in/b.jpg'' \<mapsto> photo,
      ''/out/Evento_Personalizado'' \<mapsto> textfile]"

definition event_request :: OrganizerThread where
  "event_request = init ''/in'' ''/out'' ''Evento Personalizado'' True"

definition file_exists_error :: exn where
  "file_exists_error = Exception ''[Errno 17] File exists: /out/Evento_Personalizado''"


section \<open>Properties of the path functions\<close>

lemma digit_char_0: "digit_char 0 = CHR ''0''"
  by (simp add: digit_char_def)

lemma fmt_02d_two: "n < 100 \<Longrightarrow> fmt_02d n = two_digits n"
proof (cases "n < 10")
  case True
  then show ?thesis
    by (simp add: fmt_02d_def two_digits_def str_nat.simps[of n] digit_char_0)
next
  case False
  assume "n < 100"
  with False have "n div 10 < 10" by simp
  with False show ?thesis
    by (simp add: fmt_02d_def two_digits_def str_nat.simps[of n] str_nat.simps[of "n div 10"])
qed

lemma digit_char_not_sep: "digit_char k \<noteq> CHR ''/''"
proof -
  have "digit_char k \<in> set ''0123456789''"
    unfolding digit_char_def by (rule nth_mem) simp
  then show ?thesis by auto
qed

lemma str_nat_no_sep: "CHR ''/'' \<notin> set (str_nat n)"
proof (induction n rule: str_nat.induct)
  case (1 n)
  show ?case
  proof (cases "n < 10")
    case True
    then show ?thesis by (simp add: str_nat.simps[of n] digit_char_not_sep[symmetric])
  next
    case False
    from digit_char_not_sep[of "n mod 10"] False "1.IH" show ?thesis
      by (auto simp: str_nat.simps[of n])
  qed
qed

lemma str_nat_nonempty: "str_nat n \<noteq> []"
  by (subst str_nat.simps) simp

lemma fmt_02d_no_sep: "CHR ''/'' \<notin> set (fmt_02d n)"
  using str_nat_no_sep[of n] by (auto simp: fmt_02d_def Let_def)

lemma fmt_02d_nonempty: "fmt_02d n \<noteq> []"
  by (simp add: fmt_02d_def Let_def str_nat_nonempty)

lemma join_step_component:
  assumes "CHR ''/'' \<notin> set b"
  shows "join_step p b = (if p = [] \<or> endswith_sep p then p @ b else p @ ''/'' @ b)"
  using assms by (cases b) (auto simp: join_step_def startswith_sep_def)

lemma endswith_sep_append:
  assumes "b \<noteq> []" "CHR ''/'' \<notin> set b"
  shows "\<not> endswith_sep (p @ b)"
  using assms by (metis endswith_sep_def last_appendR last_in_set)

lemma join_step_after:
  assumes "a \<noteq> []" "CHR ''/'' \<notin> set a" "CHR ''/'' \<notin> set b"
  shows "join_step (p @ a) b = p @ a @ ''/'' @ b"
  using assms endswith_sep_append[of a p] by (simp add: join_step_component)

lemma join_first:
  assumes "CHR ''/'' \<notin> set b"
  shows "join_step p b = with_sep p @ b"
  using assms by (simp add: join_step_component with_sep_def)

lemma generate_dest_path_shape:
  assumes "CHR ''/'' \<notin> set filename"
  shows "generate_dest_path slf d filename
    = with_sep (dest_folder slf) @ bucket_dirs slf d @ ''/'' @ filename"
proof -
  let ?D = "with_sep (dest_folder slf)"
  let ?y = "str_nat (year d)" and ?m = "fmt_02d (month d)" and ?dd = "fmt_02d (day d)"
  have s1: "join_step (dest_folder slf) ?y = ?D @ ?y"
    by (rule join_first) (rule str_nat_no_sep)
  have s2: "join_step (?D @ ?y) ?m = ?D @ ?y @ ''/'' @ ?m"
    by (rule join_step_after) (rule str_nat_nonempty str_nat_no_sep fmt_02d_no_sep)+
  have s3: "join_step ((?D @ ?y @ ''/'') @ ?m) b = (?D @ ?y @ ''/'') @ ?m @ ''/'' @ b"
    if "CHR ''/'' \<notin> set b" for b
    using fmt_02d_nonempty fmt_02d_no_sep that by (rule join_step_after)
  have s4: "join_step ((?D @ ?y @ ''/'' @ ?m @ ''/'') @ ?dd) filename
      = (?D @ ?y @ ''/'' @ ?m @ ''/'') @ ?dd @ ''/'' @ filename"
    using fmt_02d_nonempty fmt_02d_no_sep assms by (rule join_step_after)
  have e1: "join_step (dest_folder slf) ''Evento_Personalizado'' = ?D @ ''Evento_Personalizado''"
    by (rule join_first) simp
  have e2: "join_step (?D @ ''Evento_Personalizado'') filename
      = ?D @ ''Evento_Personalizado'' @ ''/'' @ filename"
    using assms by (intro join_step_after) simp_all
  have ym: "join (dest_folder slf) [?y, ?m, filename] = ?D @ ?y @ ''/'' @ ?m @ ''/'' @ filename"
    using s1 s2 s3[OF assms] by (simp add: join_def)
  have ymd: "join (dest_folder slf) [?y, ?m, ?dd, filename]
      = ?D @ ?y @ ''/'' @ ?m @ ''/'' @ ?dd @ ''/'' @ filename"
    using s1 s2 s3[OF fmt_02d_no_sep[of "day d"]] s4 by (simp add: join_def)
  have ev: "join (dest_folder slf) [''Evento_Personalizado'', filename]
      = ?D @ ''Evento_Personalizado'' @ ''/'' @ filename"
    using e1 e2 by (simp add: join_def)
  show ?thesis
    unfolding generate_dest_path_def bucket_dirs_def using ym ymd ev by simp
qed

lemma basename_after_sep:
  assumes "CHR ''/'' \<notin> set f"
  shows "basename (x @ ''/'' @ f) = f"
proof -
  have "takeWhile (\<lambda>c. c \<noteq> CHR ''/'') (rev f @ CHR ''/'' # rev x) = rev f"
    using assms by (subst takeWhile_append2) auto
  then show ?thesis by (simp add: basename_def)
qed

lemma prefix_with_sep: "prefix p (with_sep p @ r)"
  by (simp add: with_sep_def)

lemma bucket_dirs_cong:
  assumes "bucket slf d = bucket slf d'"
  shows "bucket_dirs slf d = bucket_dirs slf d'"
  using assms by (auto simp: bucket_def bucket_dirs_def split: if_splits)


section \<open>The destination path\<close>

text \<open>
  C3. For a capture date \<open>d\<close> (its month is at most 12, its day at most 31) and a file
  name (a directory entry: no separator in it), the destination path is the destination
  root, a separator, then: the year, the month on two digits and the file name when the
  method is Year/Month; the year, the month on two digits, the day on two digits and the
  file name when it is Year/Month/Day; \<open>Evento_Personalizado\<close> and the file name for
  every other method. The path is computed from the date, the method and the file name
  alone: the directory the file was found in is no argument of it.
\<close>

theorem generate_dest_path_layout:
  assumes "month d \<le> 12" and "day d \<le> 31" and "CHR ''/'' \<notin> set filename"
  shows "generate_dest_path slf d filename =
    (if method' slf = method_ym then
       with_sep (dest_folder slf) @ str_nat (year d) @ ''/'' @ two_digits (month d)
         @ ''/'' @ filename
     else if method' slf = method_ymd then
       with_sep (dest_folder slf) @ str_nat (year d) @ ''/'' @ two_digits (month d)
         @ ''/'' @ two_digits (day d) @ ''/'' @ filename
     else with_sep (dest_folder slf) @ ''Evento_Personalizado/'' @ filename)"
proof -
  have "fmt_02d (month d) = two_digits (month d)" "fmt_02d (day d) = two_digits (day d)"
    using assms by (simp_all add: fmt_02d_two)
  then show ?thesis
    by (simp add: generate_dest_path_shape[OF assms(3)] bucket_dirs_def)
qed

theorem generate_dest_path_layout_witness:
  "month date_2021_05_03 \<le> 12 \<and> day date_2021_05_03 \<le> 31 \<and> CHR ''/'' \<notin> set ''a.jpg''
   \<and> generate_dest_path (init ''/in'' ''/out'' method_ym True) date_2021_05_03 ''a.jpg''
       = ''/out/2021/05/a.jpg''"
  using generate_dest_path_layout
    [of date_2021_05_03 "''a.jpg''" "init ''/in'' ''/out'' method_ym True"]
  by (simp add: date_2021_05_03_def init_def with_sep_def endswith_sep_def two_digits_def
      str_nat.simps digit_char_def)

text \<open>
  C9. For every method, date and file name (a directory entry), the destination path
  starts with the destination root and its last component is the file name, unchanged; and
  two dates of the same bucket give the same destination path for the same file name.
\<close>

theorem generate_dest_path_root_and_name:
  assumes "CHR ''/'' \<notin> set filename"
  shows "prefix (dest_folder slf) (generate_dest_path slf d filename)
    \<and> basename (generate_dest_path slf d filename) = filename
    \<and> (bucket slf d = bucket slf d'
        \<longrightarrow> generate_dest_path slf d filename = generate_dest_path slf d' filename)"
proof -
  let ?p = "generate_dest_path slf d filename"
  have shape: "?p = with_sep (dest_folder slf) @ bucket_dirs slf d @ ''/'' @ filename"
    using assms by (rule generate_dest_path_shape)
  have "prefix (dest_folder slf) ?p"
    unfolding shape by (rule prefix_with_sep)
  moreover have "basename ?p = filename"
    using basename_after_sep[OF assms, of "with_sep (dest_folder slf) @ bucket_dirs slf d"]
    by (simp add: shape)
  moreover have "?p = generate_dest_path slf d' filename" if "bucket slf d = bucket slf d'"
    using bucket_dirs_cong[OF that] by (simp add: generate_dest_path_shape[OF assms])
  ultimately show ?thesis by blast
qed

theorem generate_dest_path_root_and_name_witness:
  "CHR ''/'' \<notin> set ''a.jpg''
   \<and> prefix (dest_folder (init ''/in'' ''/out'' method_ym True))
         (generate_dest_path (init ''/in'' ''/out'' method_ym True) date_2021_05_03 ''a.jpg'')
   \<and> basename (generate_dest_path (init ''/in'' ''/out'' method_ym True)
         date_2021_05_03 ''a.jpg'') = ''a.jpg''
   \<and> bucket (init ''/in'' ''/out'' method_ym True) date_2021_05_03
       = bucket (init ''/in'' ''/out'' method_ym True) date_2021_05_20
   \<and> generate_dest_path (init ''/in'' ''/out'' method_ym True) date_2021_05_03 ''a.jpg''
       = generate_dest_path (init ''/in'' ''/out'' method_ym True) date_2021_05_20 ''a.jpg''"
proof -
  have a: "CHR ''/'' \<notin> set ''a.jpg''" by simp
  have b: "bucket (init ''/in'' ''/out'' method_ym True) date_2021_05_03
      = bucket (init ''/in'' ''/out'' method_ym True) date_2021_05_20"
    by (simp add: date_2021_05_03_def date_2021_05_20_def init_def bucket_def)
  from generate_dest_path_root_and_name
    [OF a, of "init ''/in'' ''/out'' method_ym True" date_2021_05_03 date_2021_05_20] a b
  show ?thesis by blast
qed


section \<open>The capture date\<close>









section \<open>One iteration of the loop\<close>

lemma run_file_cases [consumes 1, case_names Stopped Not_file Skipped Date_raised Makedirs_raised Copied Moved]:
  fixes sys :: "('w, 't) sys" and s s' :: "'w state"
  assumes run: "run_file sys ctl root f s = (fl, s')"
  defines "p \<equiv> join root [f]"
    and "slf \<equiv> (if ctl (checks s) then stop (self s) else self s)"
  obtains
    (Stopped) "stop_flag slf" "fl = Return"
      "s' = s\<lparr>self := slf, checks := Suc (checks s), trace := trace s @ [Log msg_stopped]\<rparr>"
  | (Not_file) "\<not> stop_flag slf" "\<not> isfile sys (world s) p" "fl = Next"
      "s' = s\<lparr>self := slf, checks := Suc (checks s), trace := trace s @ [Isfile p False]\<rparr>"
  | (Skipped) "\<not> stop_flag slf" "isfile sys (world s) p" "\<not> is_image p" "\<not> is_video p"
      "fl = Next"
      "s' = s\<lparr>self := slf, checks := Suc (checks s), trace := trace s @ [Isfile p True]\<rparr>"
  | (Date_raised) e where "\<not> stop_flag slf" "isfile sys (world s) p" "is_image p \<or> is_video p"
      "get_photo_date sys (world s) p = Inl e" "fl = Raise e"
      "s' = s\<lparr>self := slf, checks := Suc (checks s),
                trace := trace s @ [Isfile p True, Preview p]\<rparr>"
  | (Makedirs_raised) d w4 e where "\<not> stop_flag slf" "isfile sys (world s) p"
      "is_image p \<or> is_video p" "get_photo_date sys (world s) p = Inr d"
      "makedirs sys (world s) (dirname (generate_dest_path slf d f)) = (w4, Some e)"
      "fl = Raise e"
      "s' = s\<lparr>self := slf, world := w4, checks := Suc (checks s),
                trace := trace s @ [Isfile p True, Preview p,
                  Makedirs (dirname (generate_dest_path slf d f)) (Some e)]\<rparr>"
  | (Copied) d w4 w5 r where "\<not> stop_flag slf" "isfile sys (world s) p"
      "is_image p \<or> is_video p" "get_photo_date sys (world s) p = Inr d"
      "makedirs sys (world s) (dirname (generate_dest_path slf d f)) = (w4, None)"
      "copy_files slf" "copy2 sys w4 p (generate_dest_path slf d f) = (w5, r)" "fl = Next"
      "s' = s\<lparr>self := slf, world := w5, checks := Suc (checks s),
                trace := trace s @ [Isfile p True, Preview p,
                  Makedirs (dirname (generate_dest_path slf d f)) None,
                  Copy2 p (generate_dest_path slf d f) r,
                  Log (case r of None \<Rightarrow> msg_copied f (generate_dest_path slf d f)
                       | Some e \<Rightarrow> msg_error f e)]\<rparr>"
  | (Moved) d w4 w5 r where "\<not> stop_flag slf" "isfile sys (world s) p"
      "is_image p \<or> is_video p" "get_photo_date sys (world s) p = Inr d"
      "makedirs sys (world s) (dirname (generate_dest_path slf d f)) = (w4, None)"
      "\<not> copy_files slf" "move sys w4 p (generate_dest_path slf d f) = (w5, r)" "fl = Next"
      "s' = s\<lparr>self := slf, world := w5, checks := Suc (checks s),
                trace := trace s @ [Isfile p True, Preview p,
                  Makedirs (dirname (generate_dest_path slf d f)) None,
                  Move p (generate_dest_path slf d f) r,
                  Log (case r of None \<Rightarrow> msg_moved f (generate_dest_path slf d f)
                       | Some e \<Rightarrow> msg_error f e)]\<rparr>"
proof (cases "stop_flag slf")
  case True
  with run show thesis
    by (intro Stopped) (auto simp: run_file_def Let_def emit_def check_stop_flag_def slf_def)
next
  case nstop: False
  show thesis
  proof (cases "isfile sys (world s) p")
    case False
    with run nstop show thesis
      by (intro Not_file)
        (auto simp: run_file_def Let_def emit_def check_stop_flag_def slf_def p_def)
  next
    case reg: True
    show thesis
    proof (cases "is_image p \<or> is_video p")
      case False
      with run nstop reg show thesis
        by (intro Skipped)
          (auto simp: run_file_def Let_def emit_def check_stop_flag_def slf_def p_def)
    next
      case media: True
      show thesis
      proof (cases "get_photo_date sys (world s) p")
        case (Inl e)
        with run nstop reg media show thesis
          by (intro Date_raised[of e])
            (auto simp: run_file_def Let_def emit_def check_stop_flag_def slf_def p_def)
      next
        case (Inr d)
        obtain w4 r4 where mk: "makedirs sys (world s) (dirname (generate_dest_path slf d f)) = (w4, r4)"
          by (cases "makedirs sys (world s) (dirname (generate_dest_path slf d f))")
        show thesis
        proof (cases r4)
          case (Some e)
          with run nstop reg media Inr mk show thesis
            by (intro Makedirs_raised[of d w4 e])
              (auto simp: run_file_def Let_def emit_def check_stop_flag_def slf_def p_def)
        next
          case None
          show thesis
          proof (cases "copy_files slf")
            case True
            obtain w5 r where cp: "copy2 sys w4 p (generate_dest_path slf d f) = (w5, r)"
              by (cases "copy2 sys w4 p (generate_dest_path slf d f)")
            with run nstop reg media Inr mk None True show thesis
              by (intro Copied[of d w4 w5 r])
                (auto simp: run_file_def Let_def emit_def check_stop_flag_def slf_def p_def
                  split: option.splits)
          next
            case False
            obtain w5 r where mv: "move sys w4 p (generate_dest_path slf d f) = (w5, r)"
              by (cases "move sys w4 p (generate_dest_path slf d f)")
            with run nstop reg media Inr mk None False show thesis
              by (intro Moved[of d w4 w5 r])
                (auto simp: run_file_def Let_def emit_def check_stop_flag_def slf_def p_def
                  split: option.splits)
          qed
        qed
      qed
    qed
  qed
qed



text \<open>The destination of a copy or a move is the path that \<open>generate_dest_path\<close> gives
  for the capture date and the file name; the directory the file was found in has no part
  in it.\<close>

lemma run_file_destination:
  assumes "run_file sys ctl root f s = (fl, s')"
    and "ev = Copy2 p dst r \<or> ev = Move p dst r"
    and "ev \<in> set (trace s')" and "ev \<notin> set (trace s)"
  shows "p = join root [f]
    \<and> (\<exists>d. get_photo_date sys (world s) p = Inr d
          \<and> dst = generate_dest_path (if ctl (checks s) then stop (self s) else self s) d f)"
  using assms(1)
proof (cases rule: run_file_cases)
  case (Copied d w4 w5 r)
  with assms(2-4) show ?thesis by auto
next
  case (Moved d w4 w5 r)
  with assms(2-4) show ?thesis by auto
qed (use assms(2-4) in auto)

text \<open>An exception of the copy or of the move is caught: the iteration logs the failure
  line, with the file name and the text of the exception, and the loop goes on.\<close>

lemma run_file_relocation_error_logged:
  assumes "run_file sys ctl root f s = (fl, s')"
    and "ev = Copy2 p dst (Some e) \<or> ev = Move p dst (Some e)"
    and "ev \<in> set (trace s')" and "ev \<notin> set (trace s)"
  shows "fl = Next \<and> last (trace s') = Log (msg_error f e)"
  using assms(1)
proof (cases rule: run_file_cases)
  case (Copied d w4 w5 r)
  with assms(2-4) show ?thesis by auto
next
  case (Moved d w4 w5 r)
  with assms(2-4) show ?thesis by auto
qed (use assms(2-4) in auto)

lemma has_media_ext_iff: "has_media_ext p \<longleftrightarrow> is_image p \<or> is_video p"
  by (auto simp: has_media_ext_def is_image_def is_video_def image_exts_def video_exts_def)

lemma accounted_Nil: "accounted []"
  by (simp add: accounted_def relocation_sources_def regular_visits_def previews_def logs_def)

lemma accounted_append: "accounted a \<Longrightarrow> accounted b \<Longrightarrow> accounted (a @ b)"
  by (simp add: accounted_def relocation_sources_def regular_visits_def previews_def logs_def)

lemma msg_completed_neq:
  "msg_completed \<noteq> msg_copied f d" "msg_completed \<noteq> msg_moved f d"
  "msg_completed \<noteq> msg_error f e" "msg_completed \<noteq> msg_stopped"
  "msg_completed \<noteq> msg_missing"
  by (simp_all add: msg_copied_def msg_moved_def msg_error_def msg_stopped_def msg_missing_def
      msg_completed_def)

lemma relocation_log_neq:
  "msg_completed \<noteq> (case r of None \<Rightarrow> msg_copied f d | Some e \<Rightarrow> msg_error f e)"
  "msg_completed \<noteq> (case r of None \<Rightarrow> msg_moved f d | Some e \<Rightarrow> msg_error f e)"
  by (simp_all add: msg_completed_neq split: option.split)

text \<open>What one iteration adds to the trace.\<close>

lemma run_file_events:
  assumes "run_file sys ctl root f s = (fl, s')"
  shows "\<exists>evs. trace s' = trace s @ evs \<and> Log msg_completed \<notin> set evs
    \<and> (fl = Next \<longrightarrow> accounted evs) \<and> (fl = Return \<longrightarrow> stop_flag (self s'))"
  using assms
proof (cases rule: run_file_cases)
  case Stopped
  then show ?thesis
    by (intro exI[of _ "[Log msg_stopped]"]) (simp add: msg_completed_neq)
next
  case Not_file
  then show ?thesis
    by (intro exI[of _ "[Isfile (join root [f]) False]"])
      (simp add: accounted_def relocation_sources_def regular_visits_def previews_def
        logs_def)
next
  case Skipped
  then show ?thesis
    by (intro exI[of _ "[Isfile (join root [f]) True]"])
      (simp add: accounted_def relocation_sources_def regular_visits_def previews_def
        logs_def has_media_ext_iff)
next
  case (Date_raised e)
  then show ?thesis
    by (intro exI[of _ "[Isfile (join root [f]) True, Preview (join root [f])]"]) simp
next
  case (Makedirs_raised d w4 e)
  from Makedirs_raised(6,7) show ?thesis by simp
next
  case (Copied d w4 w5 r)
  from Copied(3,8,9) show ?thesis
    by (simp add: relocation_log_neq accounted_def relocation_sources_def
        regular_visits_def previews_def logs_def has_media_ext_iff)
next
  case (Moved d w4 w5 r)
  from Moved(3,8,9) show ?thesis
    by (simp add: relocation_log_neq accounted_def relocation_sources_def
        regular_visits_def previews_def logs_def has_media_ext_iff)
qed

lemma run_files_events:
  assumes "run_files sys ctl root fs s = (fl, s')"
  shows "\<exists>evs. trace s' = trace s @ evs \<and> Log msg_completed \<notin> set evs
    \<and> (fl = Next \<longrightarrow> accounted evs) \<and> (fl = Return \<longrightarrow> stop_flag (self s'))"
  using assms
proof (induction fs arbitrary: s)
  case Nil
  then show ?case by (simp add: accounted_Nil)
next
  case (Cons f fs)
  obtain fl1 s1 where step: "run_file sys ctl root f s = (fl1, s1)"
    by (cases "run_file sys ctl root f s")
  from run_file_events[OF step] obtain evs1 where e1: "trace s1 = trace s @ evs1"
    "Log msg_completed \<notin> set evs1" "fl1 = Next \<longrightarrow> accounted evs1"
    "fl1 = Return \<longrightarrow> stop_flag (self s1)"
    by blast
  show ?case
  proof (cases fl1)
    case Next
    with step Cons.prems have rest: "run_files sys ctl root fs s1 = (fl, s')" by simp
    from Cons.IH[OF rest] obtain evs2 where e2: "trace s' = trace s1 @ evs2"
      "Log msg_completed \<notin> set evs2" "fl = Next \<longrightarrow> accounted evs2"
      "fl = Return \<longrightarrow> stop_flag (self s')"
      by blast
    from e1 e2 Next show ?thesis
      by (intro exI[of _ "evs1 @ evs2"]) (simp add: accounted_append)
  next
    case Return
    with step Cons.prems have "fl = Return" "s' = s1" by simp_all
    with e1 Return show ?thesis by (intro exI[of _ evs1]) simp
  next
    case (Raise e)
    with step Cons.prems have "fl = Raise e" "s' = s1" by simp_all
    with e1 show ?thesis by (intro exI[of _ evs1]) simp
  qed
qed

lemma run_walk_events:
  assumes "run_walk sys ctl walk s = (fl, s')"
  shows "\<exists>evs. trace s' = trace s @ evs \<and> Log msg_completed \<notin> set evs
    \<and> (fl = Next \<longrightarrow> accounted evs) \<and> (fl = Return \<longrightarrow> stop_flag (self s'))"
  using assms
proof (induction walk arbitrary: s)
  case Nil
  then show ?case by (simp add: accounted_Nil)
next
  case (Cons t walk)
  obtain root dirs files where t: "t = (root, dirs, files)" by (cases t)
  obtain fl1 s1 where step: "run_files sys ctl root files s = (fl1, s1)"
    by (cases "run_files sys ctl root files s")
  from run_files_events[OF step] obtain evs1 where e1: "trace s1 = trace s @ evs1"
    "Log msg_completed \<notin> set evs1" "fl1 = Next \<longrightarrow> accounted evs1"
    "fl1 = Return \<longrightarrow> stop_flag (self s1)"
    by blast
  show ?case
  proof (cases fl1)
    case Next
    with step t Cons.prems have rest: "run_walk sys ctl walk s1 = (fl, s')" by simp
    from Cons.IH[OF rest] obtain evs2 where e2: "trace s' = trace s1 @ evs2"
      "Log msg_completed \<notin> set evs2" "fl = Next \<longrightarrow> accounted evs2"
      "fl = Return \<longrightarrow> stop_flag (self s')"
      by blast
    from e1 e2 Next show ?thesis
      by (intro exI[of _ "evs1 @ evs2"]) (simp add: accounted_append)
  next
    case Return
    with step t Cons.prems have "fl = Return" "s' = s1" by simp_all
    with e1 Return show ?thesis by (intro exI[of _ evs1]) simp
  next
    case (Raise e)
    with step t Cons.prems have "fl = Raise e" "s' = s1" by simp_all
    with e1 show ?thesis by (intro exI[of _ evs1]) simp
  qed
qed

text \<open>A run with both folders that returns with the flag not set went through the
  whole traversal.\<close>

lemma run_completed:
  assumes "source_folder slf \<noteq> []" and "dest_folder slf \<noteq> []"
    and "run sys ctl slf w = (None, s')" and "\<not> stop_flag (self s')"
  shows "\<exists>evs. trace s' = evs @ [Log msg_completed] \<and> Log msg_completed \<notin> set evs
    \<and> accounted evs"
proof -
  let ?s0 = "\<lparr>self = slf, world = w, checks = 0, trace = []\<rparr>"
  obtain fl s1 where loop: "run_walk sys ctl (os_walk sys w (source_folder slf)) ?s0 = (fl, s1)"
    by (cases "run_walk sys ctl (os_walk sys w (source_folder slf)) ?s0")
  from run_walk_events[OF loop] obtain evs where e: "trace s1 = evs"
    "Log msg_completed \<notin> set evs" "fl = Next \<longrightarrow> accounted evs"
    "fl = Return \<longrightarrow> stop_flag (self s1)"
    by auto
  show ?thesis
  proof (cases fl)
    case Next
    with assms loop have "s' = emit (Log msg_completed) s1" by (simp add: run_def)
    with e Next show ?thesis by (simp add: emit_def)
  next
    case Return
    with assms loop have "s' = s1" by (simp add: run_def)
    with e Return assms(4) show ?thesis by simp
  next
    case (Raise x)
    with assms loop show ?thesis by (simp add: run_def)
  qed
qed


section \<open>The whole run\<close>

text \<open>
  C7. A run with a source and a destination folder that returns without having seen the
  flag set emits the completion line exactly once, as its last notification.
\<close>

theorem run_emits_completion_last:
  assumes "source_folder slf \<noteq> []" and "dest_folder slf \<noteq> []"
    and "run sys ctl slf w = (None, s')" and "\<not> stop_flag (self s')"
  shows "\<exists>evs. trace s' = evs @ [Log msg_completed] \<and> Log msg_completed \<notin> set evs"
  using run_completed[OF assms] by blast






text \<open>
  C6. When the source or the destination folder is empty, the run emits one log line, the
  request for the two folders, and returns: the flag is not checked and the file system
  is not touched.
\<close>

theorem run_missing_folder:
  assumes "source_folder slf = [] \<or> dest_folder slf = []"
  shows "run sys ctl slf w
    = (None, \<lparr>self = slf, world = w, checks = 0, trace = [Log msg_missing]\<rparr>)"
  using assms by (auto simp: run_def emit_def)

lemma run_files_Nil_walk:
  assumes "\<forall>(root, dirs, files) \<in> set walk. files = []"
  shows "run_walk sys ctl walk s = (Next, s)"
  using assms by (induction walk) auto

text \<open>
  C10. When both folders are given and the traversal yields no file name (the source
  directory does not exist, or there is no file under it), the run touches nothing and
  emits the completion line alone, whatever the flag is.
\<close>

theorem run_no_files:
  assumes "source_folder slf \<noteq> []" and "dest_folder slf \<noteq> []"
    and "\<forall>(root, dirs, files) \<in> set (os_walk sys w (source_folder slf)). files = []"
  shows "run sys ctl slf w
    = (None, \<lparr>self = slf, world = w, checks = 0, trace = [Log msg_completed]\<rparr>)"
  using assms(1,2) by (simp add: run_def emit_def run_files_Nil_walk[OF assms(3)])

lemma run_file_flag_set:
  assumes "stop_flag (self s) \<or> ctl (checks s)"
  shows "\<exists>s'. run_file sys ctl root f s = (Return, s') \<and> world s' = world s
    \<and> trace s' = trace s @ [Log msg_stopped]"
  using assms by (auto simp: run_file_def Let_def emit_def check_stop_flag_def stop_def)

lemma run_walk_flag_set:
  assumes "stop_flag (self s) \<or> ctl (checks s)"
  shows "if has_files walk
         then \<exists>s'. run_walk sys ctl walk s = (Return, s') \<and> world s' = world s
                \<and> trace s' = trace s @ [Log msg_stopped]
         else run_walk sys ctl walk s = (Next, s)"
proof (induction walk)
  case Nil
  then show ?case by (simp add: has_files_def)
next
  case (Cons t walk)
  obtain root dirs files where t: "t = (root, dirs, files)" by (cases t)
  show ?case
  proof (cases files)
    case Nil
    with t Cons.IH show ?thesis by (simp add: has_files_def)
  next
    case (Cons f fs)
    from run_file_flag_set[where s = s and ctl = ctl, OF assms, of sys root f] obtain s' where
      "run_file sys ctl root f s = (Return, s')" "world s' = world s"
      "trace s' = trace s @ [Log msg_stopped]" by blast
    with t Cons show ?thesis by (simp add: has_files_def)
  qed
qed

text \<open>
  C2, amended. When both folders are given and the flag is set before the run checks it
  for the first time, the run returns without touching the file system; its only notification is the line that
  says it was stopped when the traversal yields a file name, and the completion line when
  it yields none (the flag is only checked for a file).
\<close>

theorem run_stopped_before_first_file:
  assumes "source_folder slf \<noteq> []" and "dest_folder slf \<noteq> []"
    and "stop_flag slf \<or> ctl 0"
  shows "fst (run sys ctl slf w) = None
    \<and> world (snd (run sys ctl slf w)) = w
    \<and> trace (snd (run sys ctl slf w))
        = (if has_files (os_walk sys w (source_folder slf)) then [Log msg_stopped]
           else [Log msg_completed])"
proof -
  let ?s0 = "\<lparr>self = slf, world = w, checks = 0, trace = []\<rparr>"
  have "stop_flag (self ?s0) \<or> ctl (checks ?s0)" using assms(3) by simp
  from run_walk_flag_set[where s = ?s0 and ctl = ctl, OF this,
      of "os_walk sys w (source_folder slf)" sys]
  show ?thesis using assms(1,2)
    by (auto simp: run_def emit_def split: if_splits)
qed



section \<open>Running a copy request twice\<close>














section \<open>Example runs\<close>

lemma example_is_image: "is_image ''/in/a.jpg''" "\<not> is_image ''/in/b.txt''" "\<not> is_video ''/in/b.txt''"
  by (simp_all add: is_image_def is_video_def splitext_def basename_def lower_def lower_char_def
      image_exts_def video_exts_def Let_def)

lemma example_dest:
  "generate_dest_path example_request date_2021_05_03 ''a.jpg'' = ''/out/2021/05/a.jpg''"
  by (simp add: generate_dest_path_def example_request_def init_def join_def join_step_def
      startswith_sep_def endswith_sep_def date_2021_05_03_def str_nat.simps fmt_02d_def
      digit_char_def method_ym_def)

lemma example_dirname: "dirname ''/out/2021/05/a.jpg'' = ''/out/2021/05''"
  by (simp add: dirname_def)

lemma example_date:
  "get_photo_date (fs_sys example_listing) example_fs ''/in/a.jpg'' = Inr date_2021_05_03"
  by (simp add: get_photo_date_def try_exif_def fs_sys_def fs_Image_open_def example_fs_def
      photo_def TAGS_get_def parse_exif_time_def number_def fmt_exif_def date_2021_05_03_def)

text \<open>A video has no EXIF data to read: its date is the last-modified time, and with
  the method Year/Month/Day it goes to the directory of that day.\<close>

lemma example_video_date:
  "get_photo_date (fs_sys L) [''/in/c.mp4'' \<mapsto> video] ''/in/c.mp4'' = Inr date_2020_01_15"
  by (simp add: get_photo_date_def try_exif_def mtime_date_def fs_sys_def fs_Image_open_def
      fs_getmtime_def video_def)

lemma example_video_dest:
  "generate_dest_path (init ''/in'' ''/out'' method_ymd True) date_2020_01_15 ''c.mp4''
    = ''/out/2020/01/15/c.mp4''"
  by (simp add: generate_dest_path_def init_def join_def join_step_def startswith_sep_def
      endswith_sep_def date_2020_01_15_def str_nat.simps fmt_02d_def digit_char_def
      method_ym_def method_ymd_def)

lemma example_run:
  "run (fs_sys example_listing) never_stop example_request example_fs
    = (None,
       \<lparr>self = example_request,
        world = example_fs(''/out/2021/05/a.jpg'' \<mapsto> photo),
        checks = 2,
        trace = [Isfile ''/in/a.jpg'' True, Preview ''/in/a.jpg'',
                 Makedirs ''/out/2021/05'' None,
                 Copy2 ''/in/a.jpg'' ''/out/2021/05/a.jpg'' None,
                 Log (msg_copied ''a.jpg'' ''/out/2021/05/a.jpg''),
                 Isfile ''/in/b.txt'' True,
                 Log msg_completed]\<rparr>)"
proof -
  let ?sys = "fs_sys example_listing"
  let ?s0 = "\<lparr>self = example_request, world = example_fs, checks = 0, trace = []\<rparr>"
  let ?s1 = "\<lparr>self = example_request,
        world = example_fs(''/out/2021/05/a.jpg'' \<mapsto> photo),
        checks = Suc 0,
        trace = [Isfile ''/in/a.jpg'' True, Preview ''/in/a.jpg'',
                 Makedirs ''/out/2021/05'' None,
                 Copy2 ''/in/a.jpg'' ''/out/2021/05/a.jpg'' None,
                 Log (msg_copied ''a.jpg'' ''/out/2021/05/a.jpg'')]\<rparr>"
  have j: "join ''/in'' [''a.jpg''] = ''/in/a.jpg''" "join ''/in'' [''b.txt''] = ''/in/b.txt''"
    by (simp_all add: join_def join_step_def startswith_sep_def endswith_sep_def)
  have sys: "isfile ?sys = (\<lambda>w p. w p \<noteq> None)" "makedirs ?sys = fs_makedirs"
    "copy2 ?sys = fs_copy2" "os_walk ?sys = (\<lambda>w top. example_listing)"
    by (simp_all add: fs_sys_def)
  have req: "copy_files example_request" "\<not> stop_flag example_request"
    "source_folder example_request = ''/in''" "dest_folder example_request = ''/out''"
    by (simp_all add: example_request_def init_def)
  have look: "example_fs ''/in/a.jpg'' = Some photo" "example_fs ''/in/b.txt'' = Some textfile"
    "example_fs ''/out/2021/05'' = None"
    by (simp_all add: example_fs_def)
  have f1: "run_file ?sys never_stop ''/in'' ''a.jpg'' ?s0 = (Next, ?s1)"
    by (simp add: run_file_def Let_def j sys req never_stop_def check_stop_flag_def emit_def
        example_is_image example_date example_dest example_dirname fs_makedirs_def
        fs_copy2_def look)
  have f2: "run_file ?sys never_stop ''/in'' ''b.txt'' ?s1
      = (Next, ?s1\<lparr>checks := Suc (Suc 0), trace := trace ?s1 @ [Isfile ''/in/b.txt'' True]\<rparr>)"
    by (simp add: run_file_def Let_def j sys req never_stop_def check_stop_flag_def emit_def
        example_is_image look)
  have walk: "os_walk ?sys example_fs ''/in'' = [(''/in'', [], [''a.jpg'', ''b.txt''])]"
    by (simp add: fs_sys_def example_listing_def)
  show ?thesis
    by (simp add: run_def req walk f1 f2 emit_def numeral_2_eq_2)
qed

lemma example_run_final:
  "run (fs_sys example_listing) never_stop example_request example_fs = (None, example_final)"
  by (simp add: example_run example_final_def)

lemma example_request_fields:
  "source_folder example_request \<noteq> []" "dest_folder example_request \<noteq> []"
  "\<not> stop_flag (self example_final)"
  by (simp_all add: example_request_def example_final_def init_def)

theorem run_emits_completion_last_witness:
  "source_folder example_request \<noteq> [] \<and> dest_folder example_request \<noteq> []
   \<and> run (fs_sys example_listing) never_stop example_request example_fs = (None, example_final)
   \<and> \<not> stop_flag (self example_final)
   \<and> (\<exists>evs. trace example_final = evs @ [Log msg_completed] \<and> Log msg_completed \<notin> set evs)"
  using run_emits_completion_last[OF example_request_fields(1,2) example_run_final
      example_request_fields(3)]
    example_request_fields example_run_final
  by blast


theorem run_missing_folder_witness:
  "(source_folder no_source_request = [] \<or> dest_folder no_source_request = [])
   \<and> run (fs_sys example_listing) never_stop no_source_request example_fs
       = (None, \<lparr>self = no_source_request, world = example_fs, checks = 0,
                 trace = [Log msg_missing]\<rparr>)"
proof -
  have a: "source_folder no_source_request = [] \<or> dest_folder no_source_request = []"
    by (simp add: no_source_request_def init_def)
  from run_missing_folder[OF a, of "fs_sys example_listing" never_stop example_fs] a
  show ?thesis by blast
qed

theorem run_no_files_witness:
  "source_folder example_request \<noteq> [] \<and> dest_folder example_request \<noteq> []
   \<and> os_walk (fs_sys empty_listing) empty_fs (source_folder example_request)
       = [(''/in'', [''sub''], []), (''/in/sub'', [], [])]
   \<and> run (fs_sys empty_listing) never_stop example_request empty_fs
       = (None, \<lparr>self = example_request, world = empty_fs, checks = 0,
                 trace = [Log msg_completed]\<rparr>)"
proof -
  have w: "os_walk (fs_sys empty_listing) empty_fs (source_folder example_request)
      = [(''/in'', [''sub''], []), (''/in/sub'', [], [])]"
    by (simp add: fs_sys_def empty_listing_def)
  then have a: "\<forall>(root, dirs, files) \<in> set (os_walk (fs_sys empty_listing) empty_fs
      (source_folder example_request)). files = []"
    by simp
  from run_no_files[OF example_request_fields(1,2) a] w example_request_fields
  show ?thesis by blast
qed

lemma stopped_request_fields:
  "source_folder stopped_request \<noteq> []" "dest_folder stopped_request \<noteq> []"
  "stop_flag stopped_request"
  by (simp_all add: stopped_request_def stop_def example_request_def init_def)

theorem run_stopped_before_first_file_witness:
  "source_folder stopped_request \<noteq> [] \<and> dest_folder stopped_request \<noteq> []
   \<and> stop_flag stopped_request
   \<and> has_files (os_walk (fs_sys example_listing) example_fs (source_folder stopped_request))
   \<and> fst (run (fs_sys example_listing) never_stop stopped_request example_fs) = None
   \<and> world (snd (run (fs_sys example_listing) never_stop stopped_request example_fs)) = example_fs
   \<and> trace (snd (run (fs_sys example_listing) never_stop stopped_request example_fs))
       = [Log msg_stopped]"
proof -
  have a: "has_files (os_walk (fs_sys example_listing) example_fs (source_folder stopped_request))"
    by (simp add: fs_sys_def example_listing_def has_files_def)
  have b: "stop_flag stopped_request \<or> never_stop 0"
    using stopped_request_fields(3) by simp
  from run_stopped_before_first_file[where ctl = never_stop and slf = stopped_request
      and sys = "fs_sys example_listing" and w = example_fs,
      OF stopped_request_fields(1,2) b] a stopped_request_fields
  show ?thesis by simp
qed

text \<open>
  C2 as stated fails on a source tree without files: the flag is set before the run
  starts, and the run emits the completion line and no line that says it was stopped.
\<close>

theorem run_stopped_empty_tree_no_stopped_line:
  "stop_flag stopped_request
   \<and> trace (snd (run (fs_sys empty_listing) never_stop stopped_request empty_fs))
       = [Log msg_completed]
   \<and> Log msg_stopped \<notin> set (trace (snd (run (fs_sys empty_listing) never_stop
         stopped_request empty_fs)))"
proof -
  have w: "os_walk (fs_sys empty_listing) empty_fs (source_folder stopped_request) = empty_listing"
    by (simp add: fs_sys_def)
  have "run_walk (fs_sys empty_listing) never_stop empty_listing s = (Next, s)" for s :: "fs state"
    by (rule run_files_Nil_walk) (simp add: empty_listing_def)
  then have "trace (snd (run (fs_sys empty_listing) never_stop stopped_request empty_fs))
      = [Log msg_completed]"
    using stopped_request_fields(1,2) by (simp add: run_def w emit_def)
  then show ?thesis
    using stopped_request_fields(3) msg_completed_neq(4) by simp
qed

text \<open>
  C1. An exception of \<open>os.makedirs\<close> is not caught: the call is before the \<open>try\<close>.
  Here the directory for the first photo cannot be created; the exception leaves \<open>run\<close>,
  no failure line is logged, and the second photo is never looked at.
\<close>

theorem run_makedirs_error_leaves_run:
  "run (fs_sys two_photos_listing) never_stop event_request blocked_fs
    = (Some file_exists_error,
       \<lparr>self = event_request, world = blocked_fs, checks = 1,
        trace = [Isfile ''/in/a.jpg'' True, Preview ''/in/a.jpg'',
                 Makedirs ''/out/Evento_Personalizado'' (Some file_exists_error)]\<rparr>)"
proof -
  let ?sys = "fs_sys two_photos_listing"
  let ?s0 = "\<lparr>self = event_request, world = blocked_fs, checks = 0, trace = []\<rparr>"
  have j: "join ''/in'' [''a.jpg''] = ''/in/a.jpg''"
    by (simp add: join_def join_step_def startswith_sep_def endswith_sep_def)
  have sys: "isfile ?sys = (\<lambda>w p. w p \<noteq> None)" "makedirs ?sys = fs_makedirs"
    by (simp_all add: fs_sys_def)
  have req: "\<not> stop_flag event_request" "source_folder event_request = ''/in''"
    "dest_folder event_request = ''/out''"
    by (simp_all add: event_request_def init_def)
  have look: "blocked_fs ''/in/a.jpg'' = Some photo"
    "blocked_fs ''/out/Evento_Personalizado'' = Some textfile"
    by (simp_all add: blocked_fs_def)
  have date: "get_photo_date ?sys blocked_fs ''/in/a.jpg'' = Inr date_2021_05_03"
    by (simp add: get_photo_date_def try_exif_def fs_sys_def fs_Image_open_def look photo_def
        TAGS_get_def parse_exif_time_def number_def fmt_exif_def date_2021_05_03_def)
  have dest: "generate_dest_path event_request date_2021_05_03 ''a.jpg''
      = ''/out/Evento_Personalizado/a.jpg''"
    by (simp add: generate_dest_path_def event_request_def init_def join_def join_step_def
        startswith_sep_def endswith_sep_def method_ym_def method_ymd_def)
  have dir: "dirname ''/out/Evento_Personalizado/a.jpg'' = ''/out/Evento_Personalizado''"
    by (simp add: dirname_def)
  have f1: "run_file ?sys never_stop ''/in'' ''a.jpg'' ?s0
      = (Raise file_exists_error,
         \<lparr>self = event_request, world = blocked_fs, checks = Suc 0,
          trace = [Isfile ''/in/a.jpg'' True, Preview ''/in/a.jpg'',
                   Makedirs ''/out/Evento_Personalizado'' (Some file_exists_error)]\<rparr>)"
    by (simp add: run_file_def Let_def j sys req never_stop_def check_stop_flag_def emit_def
        example_is_image date dest dir fs_makedirs_def look file_exists_error_def)
  have walk: "os_walk ?sys blocked_fs ''/in'' = [(''/in'', [], [''a.jpg'', ''b.jpg''])]"
    by (simp add: fs_sys_def two_photos_listing_def)
  show ?thesis
    by (simp add: run_def req walk f1)
qed



end
